theory Spec2Isabelle
  imports Complex_Main
begin

section \<open>Numbers as the script sees them\<close>

text \<open>
  A JavaScript \<^verbatim>\<open>number\<close> is an IEEE 754 binary64 value: a finite double, one of the two
  zeros, one of the two infinities, or \<^verbatim>\<open>NaN\<close>. A property that is absent reads as
  \<^verbatim>\<open>undefined\<close>, which arithmetic turns into \<^verbatim>\<open>NaN\<close>. A finite double is held as the
  rational it denotes; \<open>Num 0\<close> is the positive zero and \<open>NegZero\<close> the negative one.
\<close>

datatype number = Num rat | NegZero | PosInf | NegInf | NaN | Undefined

text \<open>
  A finite double is \<open>m * 2 ^ e\<close> with \<open>|m| < 2 ^ 53\<close> and \<open>- 1074 \<le> e \<le> 971\<close>. For a
  positive magnitude \<open>a\<close>, \<open>doubleExp a\<close> is the exponent of the doubles around it: the
  largest \<open>e\<close> in that range with \<open>2 ^ (e + 52) \<le> a\<close>, or \<open>- 1074\<close> when there is none
  (the subnormal range). The search runs down from \<open>e = k - 1074\<close>.
\<close>

primrec pickExp :: "nat \<Rightarrow> rat \<Rightarrow> int" where
  "pickExp 0 a = - 1074"
| "pickExp (Suc k) a = (if 2 powi (int k - 1021) \<le> a then int k - 1073 else pickExp k a)"

definition doubleExp :: "rat \<Rightarrow> int" where
  "doubleExp a = pickExp 2045 a"

text \<open>Rounding to the nearest integer, a tie going to the even one.\<close>

definition roundHalfEven :: "rat \<Rightarrow> int" where
  "roundHalfEven q =
     (let f = \<lfloor>q\<rfloor>; r = q - of_int f
      in if r < 1 / 2 then f else if 1 / 2 < r then f + 1 else if even f then f else f + 1)"

text \<open>
  The double that an exact result \<open>a\<close> is rounded to (round to nearest, ties to even):
  an infinity from \<open>2 ^ 1024\<close> on, and a zero with the sign of \<open>a\<close> when \<open>a\<close> is too
  small. For \<open>a = 0\<close> this is the positive zero; the operations below decide the sign of
  an exact zero themselves.
\<close>

definition roundDouble :: "rat \<Rightarrow> number" where
  "roundDouble a =
     (let m = \<bar>a\<bar>;
          e = doubleExp m;
          v = of_int (roundHalfEven (m / 2 powi e)) * 2 powi e
      in if 2 powi 1024 \<le> v then (if 0 < a then PosInf else NegInf)
         else if v = 0 then (if a < 0 then NegZero else Num 0)
         else Num (if 0 < a then v else - v))"

fun nanish :: "number \<Rightarrow> bool" where
  "nanish NaN = True"
| "nanish Undefined = True"
| "nanish _ = False"

fun infinite_num :: "number \<Rightarrow> bool" where
  "infinite_num PosInf = True"
| "infinite_num NegInf = True"
| "infinite_num _ = False"

text \<open>The sign bit, and the value of a finite number.\<close>

fun negative :: "number \<Rightarrow> bool" where
  "negative (Num a) = (a < 0)"
| "negative NegZero = True"
| "negative NegInf = True"
| "negative _ = False"

fun val :: "number \<Rightarrow> rat" where
  "val (Num a) = a"
| "val _ = 0"

definition signedZero :: "bool \<Rightarrow> number" where
  "signedZero neg = (if neg then NegZero else Num 0)"

definition signedInf :: "bool \<Rightarrow> number" where
  "signedInf neg = (if neg then NegInf else PosInf)"

definition num_mul :: "number \<Rightarrow> number \<Rightarrow> number" where
  "num_mul x y =
     (if nanish x \<or> nanish y then NaN
      else if infinite_num x \<or> infinite_num y then
        (if (\<not> infinite_num x \<and> val x = 0) \<or> (\<not> infinite_num y \<and> val y = 0) then NaN
         else signedInf (negative x \<noteq> negative y))
      else if val x * val y = 0 then signedZero (negative x \<noteq> negative y)
      else roundDouble (val x * val y))"

definition num_add :: "number \<Rightarrow> number \<Rightarrow> number" where
  "num_add x y =
     (if nanish x \<or> nanish y then NaN
      else if infinite_num x then
        (if infinite_num y \<and> negative x \<noteq> negative y then NaN else x)
      else if infinite_num y then y
      else if val x + val y = 0 then
        signedZero (val x = 0 \<and> val y = 0 \<and> negative x \<and> negative y)
      else roundDouble (val x + val y))"

fun num_neg :: "number \<Rightarrow> number" where
  "num_neg (Num a) = (if a = 0 then NegZero else Num (- a))"
| "num_neg NegZero = Num 0"
| "num_neg PosInf = NegInf"
| "num_neg NegInf = PosInf"
| "num_neg NaN = NaN"
| "num_neg Undefined = NaN"

definition num_sub :: "number \<Rightarrow> number \<Rightarrow> number" where
  "num_sub x y = num_add x (num_neg y)"

definition num_div :: "number \<Rightarrow> number \<Rightarrow> number" where
  "num_div x y =
     (if nanish x \<or> nanish y then NaN
      else if infinite_num x then
        (if infinite_num y then NaN else signedInf (negative x \<noteq> negative y))
      else if infinite_num y then signedZero (negative x \<noteq> negative y)
      else if val y = 0 then
        (if val x = 0 then NaN else signedInf (negative x \<noteq> negative y))
      else if val x = 0 then signedZero (negative x \<noteq> negative y)
      else roundDouble (val x / val y))"

text \<open>The nullish coalescing operator \<^verbatim>\<open>a ?? d\<close>: only \<^verbatim>\<open>undefined\<close> is replaced.\<close>

fun nullish :: "number \<Rightarrow> number \<Rightarrow> number" where
  "nullish Undefined d = d"
| "nullish a d = a"

text \<open>An exact result that is itself a double: rounding leaves it as it is.\<close>

definition exactDouble :: "rat \<Rightarrow> bool" where
  "exactDouble a = (roundDouble a = Num a)"

section \<open>Data model (types.ts)\<close>

record Layout =
  scale :: number
  stretchX :: number
  stretchY :: number
  translateX :: number
  translateY :: number

record Layer =
  layer_id :: string
  layer_url :: string
  layer_layout :: Layout
  layer_name :: string

text \<open>
  \<^verbatim>\<open>baseLayout\<close> is read as \<^verbatim>\<open>currentVersion.baseLayout || DEFAULT_LAYOUT\<close>, so it
  is kept optional; \<^verbatim>\<open>prompt\<close> is declared optional.
\<close>

record ThumbnailVersion =
  v_id :: string
  v_url :: string
  v_layers :: "Layer list"
  v_baseLayout :: "Layout option"
  v_prompt :: "string option"
  v_timestamp :: int

record Project =
  p_id :: string
  p_name :: string
  p_thumbnailUrl :: string
  p_timestamp :: int
  p_revisionStack :: "ThumbnailVersion list"
  p_snapshots :: "ThumbnailVersion list option"

datatype EditMode = Styles | Effects | Transform | Chat

datatype LayoutKey = KScale | KStretchX | KStretchY | KTranslateX | KTranslateY

definition DEFAULT_LAYOUT :: Layout where
  "DEFAULT_LAYOUT =
     \<lparr>scale = Num 1, stretchX = Num 1, stretchY = Num 1, translateX = Num 0, translateY = Num 0\<rparr>"

definition MAX_SNAPSHOTS :: int where
  "MAX_SNAPSHOTS = 12"

section \<open>The compositor (utils/imageUtils.ts)\<close>

text \<open>
  A decoded image carries its source and its pixel size. The canvas is its size, its
  background fill and the \<^verbatim>\<open>drawImage\<close> calls it received, oldest first, each with the
  arguments it was given.
\<close>

record Image =
  img_src :: string
  img_width :: nat
  img_height :: nat

record DrawCall =
  d_img :: Image
  d_x :: number
  d_y :: number
  d_w :: number
  d_h :: number

record Canvas =
  c_width :: nat
  c_height :: nat
  c_fill :: "string option"
  c_draws :: "DrawCall list"

definition drawWithLayout :: "Canvas \<Rightarrow> Image \<Rightarrow> Layout \<Rightarrow> Canvas" where
  "drawWithLayout canvas img layout =
     (let targetW = num_mul (num_mul (Num (of_nat (img_width img))) (scale layout)) (stretchX layout);
          targetH = num_mul (num_mul (Num (of_nat (img_height img))) (scale layout)) (stretchY layout);
          x = num_add (num_div (num_sub (Num (of_nat (c_width canvas))) targetW) (Num 2))
                (num_div (num_mul (translateX layout) (Num (of_nat (c_width canvas)))) (Num 100));
          y = num_add (num_div (num_sub (Num (of_nat (c_height canvas))) targetH) (Num 2))
                (num_div (num_mul (translateY layout) (Num (of_nat (c_height canvas)))) (Num 100))
      in canvas\<lparr>c_draws := c_draws canvas @
           [\<lparr>d_img = img, d_x = x, d_y = y, d_w = targetW, d_h = targetH\<rparr>]\<rparr>)"

datatype compose_error = NoCanvasContext | ImageLoadFailed string

text \<open>
  The loop over the layers: a layer whose image does not load is caught, logged and
  skipped; the loop goes on with the next layer.
\<close>

fun drawLayers :: "(string \<Rightarrow> Image option) \<Rightarrow> Canvas \<Rightarrow> Layer list \<Rightarrow> Canvas" where
  "drawLayers loadImage canvas [] = canvas"
| "drawLayers loadImage canvas (layer # layers) =
     (case loadImage (layer_url layer) of
        None \<Rightarrow> drawLayers loadImage canvas layers
      | Some layerImg \<Rightarrow>
          drawLayers loadImage (drawWithLayout canvas layerImg (layer_layout layer)) layers)"

text \<open>
  What the handlers reach outside the program, made explicit: whether a 2D context can be
  had, the image decoder (\<open>None\<close> when the load is rejected), the PNG encoder of the
  canvas, and the two remote calls of services/geminiService.ts (\<open>None\<close> when the call
  throws).
\<close>

record Env =
  env_ctx :: bool
  env_loadImage :: "string \<Rightarrow> Image option"
  env_toDataURL :: "Canvas \<Rightarrow> string"
  env_editImage :: "string \<Rightarrow> string \<Rightarrow> string option"
  env_generateNewImage :: "string \<Rightarrow> string option"

text \<open>The canvas after its size is set to 1280 by 720 and it is filled with black.\<close>

definition blankCanvas :: Canvas where
  "blankCanvas = \<lparr>c_width = 1280, c_height = 720, c_fill = Some ''#000000'', c_draws = []\<rparr>"

definition composeImage :: "Env \<Rightarrow> string \<Rightarrow> Layout \<Rightarrow> Layer list \<Rightarrow> compose_error + string" where
  "composeImage env imageUrl baseLayout layers =
     (if \<not> env_ctx env then Inl NoCanvasContext
      else case env_loadImage env imageUrl of
        None \<Rightarrow> Inl (ImageLoadFailed imageUrl)
      | Some baseImg \<Rightarrow>
          Inr (env_toDataURL env
                 (drawLayers (env_loadImage env) (drawWithLayout blankCanvas baseImg baseLayout) layers)))"

text \<open>
  The live preview (App.tsx) puts the same five fields into a CSS transform, each through
  \<^verbatim>\<open>??\<close> with its default: scale, translate X and Y, stretch X and Y, in that order.
\<close>

definition previewTransform :: "Layout \<Rightarrow> number \<times> number \<times> number \<times> number \<times> number" where
  "previewTransform layout =
     (nullish (scale layout) (Num 1),
      nullish (translateX layout) (Num 0), nullish (translateY layout) (Num 0),
      nullish (stretchX layout) (Num 1), nullish (stretchY layout) (Num 1))"

section \<open>The editing session (App.tsx)\<close>

text \<open>
  The component's state, as far as history, projects and the busy flag go. Display-only
  state (status message, save indicator, chat, dialogs, camera) is left out. A handler
  reads the state of the render it was created in and returns the state after its
  \<^verbatim>\<open>set...\<close> calls. Fresh identifiers and the clock are arguments.
\<close>

record AppState =
  history :: "ThumbnailVersion list"
  currentIdx :: int
  projects :: "Project list"
  activeProjectId :: "string option"
  isProcessing :: bool
  prompt :: string
  error :: "string option"
  baseLayout :: Layout
  activeLayerId :: string
  editMode :: EditMode

definition currentVersion :: "AppState \<Rightarrow> ThumbnailVersion option" where
  "currentVersion s =
     (if 0 \<le> currentIdx s \<and> currentIdx s < int (length (history s))
      then Some (history s ! nat (currentIdx s)) else None)"

definition activeProject :: "AppState \<Rightarrow> Project option" where
  "activeProject s = find (\<lambda>p. Some (p_id p) = activeProjectId s) (projects s)"

text \<open>Truthiness of a \<^verbatim>\<open>string | null\<close>: \<^verbatim>\<open>null\<close> and the empty string are falsy.\<close>

definition truthy :: "string option \<Rightarrow> bool" where
  "truthy a = (case a of None \<Rightarrow> False | Some x \<Rightarrow> x \<noteq> [])"

text \<open>The effect that runs after a render in which the history or the index changed.\<close>

definition syncBaseLayout :: "AppState \<Rightarrow> AppState" where
  "syncBaseLayout s =
     (case currentVersion s of
        None \<Rightarrow> s
      | Some cv \<Rightarrow>
          s\<lparr>baseLayout := (case v_baseLayout cv of Some l \<Rightarrow> l | None \<Rightarrow> DEFAULT_LAYOUT)\<rparr>)"

text \<open>The object spread \<^verbatim>\<open>{ ...layout, [key]: value }\<close>, and the read of one field.\<close>

fun layout_set :: "LayoutKey \<Rightarrow> number \<Rightarrow> Layout \<Rightarrow> Layout" where
  "layout_set KScale v l = l\<lparr>scale := v\<rparr>"
| "layout_set KStretchX v l = l\<lparr>stretchX := v\<rparr>"
| "layout_set KStretchY v l = l\<lparr>stretchY := v\<rparr>"
| "layout_set KTranslateX v l = l\<lparr>translateX := v\<rparr>"
| "layout_set KTranslateY v l = l\<lparr>translateY := v\<rparr>"

fun layout_get :: "LayoutKey \<Rightarrow> Layout \<Rightarrow> number" where
  "layout_get KScale l = scale l"
| "layout_get KStretchX l = stretchX l"
| "layout_get KStretchY l = stretchY l"
| "layout_get KTranslateX l = translateX l"
| "layout_get KTranslateY l = translateY l"

definition updateActiveTransform :: "LayoutKey \<Rightarrow> number \<Rightarrow> AppState \<Rightarrow> AppState" where
  "updateActiveTransform key value s =
     (if activeLayerId s = ''base'' then
        (let nextLayout = layout_set key value (baseLayout s);
             s1 = s\<lparr>baseLayout := nextLayout\<rparr>
         in case currentVersion s of
              None \<Rightarrow> s1
            | Some cv \<Rightarrow>
                s1\<lparr>history := (history s)[nat (currentIdx s) := cv\<lparr>v_baseLayout := Some nextLayout\<rparr>]\<rparr>)
      else
        (case currentVersion s of
           None \<Rightarrow> s
         | Some cv \<Rightarrow>
             (let updatedLayers =
                    map (\<lambda>l. if layer_id l = activeLayerId s
                             then l\<lparr>layer_layout := layout_set key value (layer_layout l)\<rparr>
                             else l)
                        (v_layers cv)
              in s\<lparr>history := (history s)[nat (currentIdx s) := cv\<lparr>v_layers := updatedLayers\<rparr>]\<rparr>)))"

definition executeStartNewProject :: "AppState \<Rightarrow> AppState" where
  "executeStartNewProject s =
     s\<lparr>history := [], currentIdx := - 1, activeProjectId := None, baseLayout := DEFAULT_LAYOUT,
       activeLayerId := ''base'', prompt := [], error := None\<rparr>"

text \<open>
  \<^verbatim>\<open>xs.slice(0, e)\<close>: a negative end counts from the back, and the end is clamped to
  the length.
\<close>

definition slice0 :: "'a list \<Rightarrow> int \<Rightarrow> 'a list" where
  "slice0 xs e =
     (let n = int (length xs);
          k = (if e < 0 then max (n + e) 0 else min e n)
      in take (nat k) xs)"

definition addToHistory ::
  "string \<Rightarrow> int \<Rightarrow> string \<Rightarrow> string option \<Rightarrow> Layer list \<Rightarrow> Layout option \<Rightarrow> AppState \<Rightarrow> AppState" where
  "addToHistory newId now url p layers customBaseLayout s =
     (let newVersion =
            \<lparr>v_id = newId, v_url = url, v_layers = layers,
             v_baseLayout = Some (case customBaseLayout of Some l \<Rightarrow> l | None \<Rightarrow> baseLayout s),
             v_prompt = p, v_timestamp = now\<rparr>;
          newHistory = slice0 (history s) (currentIdx s + 1) @ [newVersion]
      in s\<lparr>history := newHistory, currentIdx := int (length newHistory) - 1\<rparr>)"

text \<open>Saving the project list may fail; the failure is caught and shown.\<close>

definition persistProjects :: "bool \<Rightarrow> AppState \<Rightarrow> AppState" where
  "persistProjects dbOk s =
     (if dbOk then s else s\<lparr>error := Some ''Storage error. Database might be full.''\<rparr>)"

text \<open>The decimal text of a length, as the template literal prints it.\<close>

fun show_nat :: "nat \<Rightarrow> string" where
  "show_nat n =
     (if n < 10 then [''0123456789'' ! n]
      else show_nat (n div 10) @ [''0123456789'' ! (n mod 10)])"

declare show_nat.simps [simp del]

definition storeCurrentProjectState :: "bool \<Rightarrow> string \<Rightarrow> int \<Rightarrow> AppState \<Rightarrow> AppState" where
  "storeCurrentProjectState dbOk newId now s =
     (case currentVersion s of
        None \<Rightarrow> s
      | Some cv \<Rightarrow>
          persistProjects dbOk
            (if truthy (activeProjectId s) then
               s\<lparr>projects :=
                   map (\<lambda>p. if Some (p_id p) = activeProjectId s
                            then p\<lparr>p_thumbnailUrl := v_url cv, p_revisionStack := history s,
                                   p_timestamp := now\<rparr>
                            else p)
                       (projects s)\<rparr>
             else
               s\<lparr>projects :=
                   \<lparr>p_id = newId, p_name = ''Thumbnail '' @ show_nat (length (projects s) + 1),
                    p_thumbnailUrl = v_url cv, p_timestamp = now, p_revisionStack = history s,
                    p_snapshots = Some []\<rparr> # projects s,
                 activeProjectId := Some newId\<rparr>))"

text \<open>The confirmed deletion (the handler behind the dialog's button).\<close>

definition deleteProject :: "bool \<Rightarrow> string \<Rightarrow> AppState \<Rightarrow> AppState" where
  "deleteProject dbOk ident s =
     (let s1 = persistProjects dbOk (s\<lparr>projects := filter (\<lambda>p. p_id p \<noteq> ident) (projects s)\<rparr>)
      in if activeProjectId s = Some ident then executeStartNewProject s1 else s1)"

text \<open>The snapshots of the active project, as \<^verbatim>\<open>activeProject?.snapshots || []\<close> reads them.\<close>

definition activeSnapshots :: "AppState \<Rightarrow> ThumbnailVersion list" where
  "activeSnapshots s =
     (case activeProject s of
        None \<Rightarrow> []
      | Some p \<Rightarrow> (case p_snapshots p of None \<Rightarrow> [] | Some xs \<Rightarrow> xs))"

definition createSnapshot :: "bool \<Rightarrow> int \<Rightarrow> AppState \<Rightarrow> AppState" where
  "createSnapshot dbOk now s =
     (case currentVersion s of
        None \<Rightarrow> s
      | Some cv \<Rightarrow>
          if \<not> truthy (activeProjectId s) then s
          else
            (let currentSnapshots = activeSnapshots s;
                 newSnapshot = cv\<lparr>v_timestamp := now\<rparr>;
                 updatedSnapshots = slice0 (newSnapshot # currentSnapshots) MAX_SNAPSHOTS;
                 updatedProjects =
                   map (\<lambda>p. if Some (p_id p) = activeProjectId s
                            then p\<lparr>p_snapshots := Some updatedSnapshots\<rparr> else p)
                       (projects s)
             in persistProjects dbOk (s\<lparr>projects := updatedProjects\<rparr>)))"

text \<open>
  The length of a project's snapshot list (an absent list counts as empty), and the bound
  on it over the whole project list.
\<close>

definition snapshotCount :: "Project \<Rightarrow> nat" where
  "snapshotCount p = (case p_snapshots p of None \<Rightarrow> 0 | Some xs \<Rightarrow> length xs)"

definition snapshotsCapped :: "AppState \<Rightarrow> bool" where
  "snapshotsCapped s = list_all (\<lambda>p. int (snapshotCount p) \<le> MAX_SNAPSHOTS) (projects s)"

definition removeLayer :: "string \<Rightarrow> int \<Rightarrow> string \<Rightarrow> AppState \<Rightarrow> AppState" where
  "removeLayer newId now ident s =
     (case currentVersion s of
        None \<Rightarrow> s
      | Some cv \<Rightarrow>
          (let updatedLayers = filter (\<lambda>l. layer_id l \<noteq> ident) (v_layers cv);
               s1 = addToHistory newId now (v_url cv) (Some ''Removed Layer'') updatedLayers None s
           in if activeLayerId s = ident then s1\<lparr>activeLayerId := ''base''\<rparr> else s1))"

subsection \<open>The asynchronous handlers\<close>

text \<open>
  An \<^verbatim>\<open>async\<close> handler runs in two parts. The first part runs at the click, up to the
  first \<^verbatim>\<open>await\<close>, on the state of the render the handler belongs to. The second part
  runs when the awaited calls have settled: it still reads that render's state (its
  closure), and its \<^verbatim>\<open>set...\<close> calls overwrite fields of whatever the state is by then.
  Run without anything in between, the two parts are the handler as a whole.
\<close>

text \<open>
  Strings are held as their UTF-8 bytes. The white space and line terminators that
  \<^verbatim>\<open>String.prototype.trim\<close> strips, each as its byte sequence: U+0009 to U+000D, U+0020,
  U+00A0, U+1680, U+2000 to U+200A, U+2028, U+2029, U+202F, U+205F, U+3000 and U+FEFF.
\<close>

definition whiteSpace :: "string list" where
  "whiteSpace =
     [ [CHR 0x09], [CHR 0x0A], [CHR 0x0B], [CHR 0x0C], [CHR 0x0D], [CHR 0x20],
      [CHR 0xC2, CHR 0xA0],
      [CHR 0xE1, CHR 0x9A, CHR 0x80],
      [CHR 0xE2, CHR 0x80, CHR 0x80], [CHR 0xE2, CHR 0x80, CHR 0x81],
      [CHR 0xE2, CHR 0x80, CHR 0x82], [CHR 0xE2, CHR 0x80, CHR 0x83],
      [CHR 0xE2, CHR 0x80, CHR 0x84], [CHR 0xE2, CHR 0x80, CHR 0x85],
      [CHR 0xE2, CHR 0x80, CHR 0x86], [CHR 0xE2, CHR 0x80, CHR 0x87],
      [CHR 0xE2, CHR 0x80, CHR 0x88], [CHR 0xE2, CHR 0x80, CHR 0x89],
      [CHR 0xE2, CHR 0x80, CHR 0x8A],
      [CHR 0xE2, CHR 0x80, CHR 0xA8], [CHR 0xE2, CHR 0x80, CHR 0xA9],
      [CHR 0xE2, CHR 0x80, CHR 0xAF],
      [CHR 0xE2, CHR 0x81, CHR 0x9F],
      [CHR 0xE3, CHR 0x80, CHR 0x80],
      [CHR 0xEF, CHR 0xBB, CHR 0xBF] ]"

text \<open>
  Dropping, from the front of \<open>str\<close>, every leading occurrence of one of the byte
  sequences \<open>ws\<close>.
\<close>

function stripLeading :: "string list \<Rightarrow> string \<Rightarrow> string" where
  "stripLeading ws str =
     (case find (\<lambda>w. w \<noteq> [] \<and> take (length w) str = w) ws of
        None \<Rightarrow> str
      | Some w \<Rightarrow> stripLeading ws (drop (length w) str))"
  by pat_completeness auto
termination
proof (relation "measure (\<lambda>(ws, str). length str)")
  show "wf (measure (\<lambda>(ws, str). length str))" by simp
next
  fix ws :: "string list" and str w :: string
  assume "find (\<lambda>w. w \<noteq> [] \<and> take (length w) str = w) ws = Some w"
  then have w: "w \<noteq> []" "take (length w) str = w" by (auto simp: find_Some_iff)
  then have "str \<noteq> []" by auto
  with w(1) show "((ws, drop (length w) str), (ws, str)) \<in> measure (\<lambda>(ws, str). length str)"
    by simp
qed

declare stripLeading.simps [simp del]

text \<open>
  \<^verbatim>\<open>String.prototype.trim\<close>: white space is dropped at the front and, read backwards,
  at the end.
\<close>

definition trim :: "string \<Rightarrow> string" where
  "trim str = rev (stripLeading (map rev whiteSpace) (rev (stripLeading whiteSpace str)))"

text \<open>\<^verbatim>\<open>a || b\<close> on strings: the empty string is falsy.\<close>

definition orElse :: "string \<Rightarrow> string \<Rightarrow> string" where
  "orElse a b = (if a = [] then b else a)"

text \<open>
  The first part of \<^verbatim>\<open>handleEdit\<close>: \<open>None\<close> when the guard returns early, else the
  trimmed prompt and the state with the busy flag set.
\<close>

definition handleEdit_begin :: "string option \<Rightarrow> AppState \<Rightarrow> (string \<times> AppState) option" where
  "handleEdit_begin customPrompt s =
     (let rawPrompt = trim (case customPrompt of None \<Rightarrow> prompt s | Some c \<Rightarrow> orElse c (prompt s))
      in if currentVersion s = None \<or> (rawPrompt = [] \<and> editMode s \<noteq> Transform) then None
         else Some (rawPrompt, s\<lparr>isProcessing := True\<rparr>))"

text \<open>
  The second part: \<open>closure\<close> is the state the handler was created in, \<open>cur\<close> the
  state when the awaited calls have settled. (The first part has checked that the closure
  has a current version, so the first \<open>None\<close> branch is never taken after it.)
\<close>

definition handleEdit_finish :: "Env \<Rightarrow> string \<Rightarrow> int \<Rightarrow> AppState \<Rightarrow> string \<Rightarrow> AppState \<Rightarrow> AppState" where
  "handleEdit_finish env newId now closure rawPrompt cur =
     (case currentVersion closure of
        None \<Rightarrow> cur
      | Some cv \<Rightarrow>
          (case composeImage env (v_url cv) (baseLayout closure) (v_layers cv) of
             Inl e \<Rightarrow>
               cur\<lparr>error := Some ''Visual synthesis failed. Please try again.'', isProcessing := False\<rparr>
           | Inr composedB64 \<Rightarrow>
               (case env_editImage env composedB64 (orElse rawPrompt ''Clean background removal.'') of
                  None \<Rightarrow>
                    cur\<lparr>error := Some ''Visual synthesis failed. Please try again.'',
                        isProcessing := False\<rparr>
                | Some result \<Rightarrow>
                    (let a = addToHistory newId now result (Some (orElse rawPrompt ''AI Edit'')) []
                               (Some DEFAULT_LAYOUT) closure
                     in cur\<lparr>history := history a, currentIdx := currentIdx a,
                            baseLayout := DEFAULT_LAYOUT, prompt := [], isProcessing := False\<rparr>))))"

definition handleEdit :: "Env \<Rightarrow> string \<Rightarrow> int \<Rightarrow> string option \<Rightarrow> AppState \<Rightarrow> AppState" where
  "handleEdit env newId now customPrompt s =
     (case handleEdit_begin customPrompt s of
        None \<Rightarrow> s
      | Some (rawPrompt, s1) \<Rightarrow> handleEdit_finish env newId now s rawPrompt s1)"

definition handleGenerateFromScratch_begin :: "AppState \<Rightarrow> AppState" where
  "handleGenerateFromScratch_begin s = s\<lparr>isProcessing := True\<rparr>"

definition handleGenerateFromScratch_finish ::
  "Env \<Rightarrow> string \<Rightarrow> int \<Rightarrow> AppState \<Rightarrow> string \<Rightarrow> AppState \<Rightarrow> AppState" where
  "handleGenerateFromScratch_finish env newId now closure templatePrompt cur =
     (case env_generateNewImage env templatePrompt of
        None \<Rightarrow> cur\<lparr>error := Some ''Background generation failed.'', isProcessing := False\<rparr>
      | Some result \<Rightarrow>
          (let a = addToHistory newId now result (Some templatePrompt) [] (Some DEFAULT_LAYOUT) closure
           in cur\<lparr>history := history a, currentIdx := currentIdx a, isProcessing := False\<rparr>))"

definition handleGenerateFromScratch :: "Env \<Rightarrow> string \<Rightarrow> int \<Rightarrow> string \<Rightarrow> AppState \<Rightarrow> AppState" where
  "handleGenerateFromScratch env newId now templatePrompt s =
     handleGenerateFromScratch_finish env newId now s templatePrompt (handleGenerateFromScratch_begin s)"

text \<open>
  The first part of \<^verbatim>\<open>handleChatSubmit\<close>, for comparison: it returns early while the busy
  flag is set. (The chat never touches the history.)
\<close>

definition handleChatSubmit_begin :: "string \<Rightarrow> AppState \<Rightarrow> AppState option" where
  "handleChatSubmit_begin chatInput s =
     (if trim chatInput = [] \<or> isProcessing s then None else Some (s\<lparr>isProcessing := True\<rparr>))"

section \<open>Sample data\<close>

text \<open>
  A small session used to run the handlers on concrete inputs: a base image, a logo layer,
  a layer whose source cannot be decoded and a face layer; three versions, the second one
  current; one saved project, which is the active one.
\<close>

definition imgBase :: Image where
  "imgBase = \<lparr>img_src = ''data:base'', img_width = 1280, img_height = 720\<rparr>"

definition imgLogo :: Image where
  "imgLogo = \<lparr>img_src = ''data:logo'', img_width = 200, img_height = 100\<rparr>"



definition imgFace :: Image where
  "imgFace = \<lparr>img_src = ''data:face'', img_width = 400, img_height = 400\<rparr>"

definition sampleEnv :: Env where
  "sampleEnv =
     \<lparr>env_ctx = True,
      env_loadImage = (\<lambda>u. if u = ''data:base'' then Some imgBase
                           else if u = ''data:logo'' then Some imgLogo
                           else if u = ''data:face'' then Some imgFace else None),
      env_toDataURL = (\<lambda>c. concat (map (\<lambda>d. img_src (d_img d) @ '';'') (c_draws c))),
      env_editImage = (\<lambda>b64 p. if p = ''fail'' then None else Some (''edited:'' @ b64)),
      env_generateNewImage = (\<lambda>p. if p = ''fail'' then None else Some (''generated:'' @ p))\<rparr>"

definition layerLogo :: Layer where
  "layerLogo = \<lparr>layer_id = ''l1'', layer_url = ''data:logo'',
                layer_layout = DEFAULT_LAYOUT\<lparr>scale := Num (1 / 2)\<rparr>, layer_name = ''Layer 1''\<rparr>"

definition layerBroken :: Layer where
  "layerBroken = \<lparr>layer_id = ''l2'', layer_url = ''data:broken'',
                  layer_layout = DEFAULT_LAYOUT\<lparr>scale := Num (1 / 2)\<rparr>, layer_name = ''Layer 2''\<rparr>"

definition layerFace :: Layer where
  "layerFace = \<lparr>layer_id = ''l3'', layer_url = ''data:face'',
                layer_layout = DEFAULT_LAYOUT\<lparr>scale := Num (1 / 2)\<rparr>, layer_name = ''Layer 3''\<rparr>"

definition verA :: ThumbnailVersion where
  "verA = \<lparr>v_id = ''a'', v_url = ''data:base'', v_layers = [],
           v_baseLayout = Some DEFAULT_LAYOUT, v_prompt = Some ''Subject Upload'', v_timestamp = 100\<rparr>"

definition verB :: ThumbnailVersion where
  "verB = \<lparr>v_id = ''b'', v_url = ''data:base'', v_layers = [layerLogo, layerBroken, layerFace],
           v_baseLayout = Some DEFAULT_LAYOUT, v_prompt = Some ''Added Image Layer'', v_timestamp = 200\<rparr>"

definition verC :: ThumbnailVersion where
  "verC = \<lparr>v_id = ''c'', v_url = ''data:base'', v_layers = [layerLogo, layerBroken],
           v_baseLayout = Some DEFAULT_LAYOUT, v_prompt = Some ''Removed Layer'', v_timestamp = 300\<rparr>"

definition projP1 :: Project where
  "projP1 = \<lparr>p_id = ''p1'', p_name = ''Thumbnail 1'', p_thumbnailUrl = ''data:old'',
             p_timestamp = 50, p_revisionStack = [verA], p_snapshots = Some []\<rparr>"

definition sampleState :: AppState where
  "sampleState =
     \<lparr>history = [verA, verB, verC], currentIdx = 1, projects = [projP1],
      activeProjectId = Some ''p1'', isProcessing = False, prompt = [], error = None,
      baseLayout = DEFAULT_LAYOUT, activeLayerId = ''base'', editMode = Styles\<rparr>"

text \<open>The state the component starts in (the arguments of its \<^verbatim>\<open>useState\<close> calls).\<close>

definition initialState :: AppState where
  "initialState =
     \<lparr>history = [], currentIdx = - 1, projects = [], activeProjectId = None,
      isProcessing = False, prompt = [], error = None, baseLayout = DEFAULT_LAYOUT,
      activeLayerId = ''base'', editMode = Styles\<rparr>"

section \<open>Auxiliary facts\<close>

lemma slice0_take: "0 \<le> e \<Longrightarrow> e \<le> int (length xs) \<Longrightarrow> slice0 xs e = take (nat e) xs"
  by (simp add: slice0_def Let_def min_def)

lemma slice0_MAX: "slice0 xs MAX_SNAPSHOTS = take 12 xs"
  by (simp add: slice0_def MAX_SNAPSHOTS_def Let_def min_def)

lemma currentVersion_SomeD:
  "currentVersion s = Some cv \<Longrightarrow>
     0 \<le> currentIdx s \<and> nat (currentIdx s) < length (history s) \<and> cv = history s ! nat (currentIdx s)"
  by (auto simp: currentVersion_def split: if_splits)

lemma sample_currentVersion: "currentVersion sampleState = Some verB"
  by (simp add: currentVersion_def sampleState_def)

lemma sample_fields:
  "history sampleState = [verA, verB, verC]" "currentIdx sampleState = 1"
  "projects sampleState = [projP1]" "activeProjectId sampleState = Some ''p1''"
  "isProcessing sampleState = False" "prompt sampleState = []" "error sampleState = None"
  "baseLayout sampleState = DEFAULT_LAYOUT" "activeLayerId sampleState = ''base''"
  "editMode sampleState = Styles"
  by (simp_all add: sampleState_def)

lemma persistProjects_fields [simp]:
  "projects (persistProjects dbOk s) = projects s"
  "activeProjectId (persistProjects dbOk s) = activeProjectId s"
  "history (persistProjects dbOk s) = history s"
  "currentIdx (persistProjects dbOk s) = currentIdx s"
  by (simp_all add: persistProjects_def)

lemma layout_get_set_same: "layout_get k (layout_set k v l) = v"
  by (cases k) simp_all

lemma layout_get_set_other: "k' \<noteq> k \<Longrightarrow> layout_get k' (layout_set k v l) = layout_get k' l"
  by (cases k; cases k') simp_all

text \<open>
  After the effect has run, the session's base layout is the one stored in the current
  version (or the default when the version stores none).
\<close>

lemma syncBaseLayout_synced:
  "currentVersion s = Some cv \<Longrightarrow>
     baseLayout (syncBaseLayout s) = (case v_baseLayout cv of Some l \<Rightarrow> l | None \<Rightarrow> DEFAULT_LAYOUT)"
  by (simp add: syncBaseLayout_def)

lemma syncBaseLayout_currentVersion: "currentVersion (syncBaseLayout s) = currentVersion s"
  by (simp add: syncBaseLayout_def currentVersion_def split: option.splits)

text \<open>
  A prompt that consists of a no-break space and a line separator is empty after
  trimming, so the guard of \<open>handleEdit\<close> returns early on it.
\<close>

lemma handleEdit_begin_blank_prompt:
  "trim [CHR 0xC2, CHR 0xA0, CHR 0xE2, CHR 0x80, CHR 0xA8] = []
   \<and> handleEdit_begin (Some [CHR 0xC2, CHR 0xA0, CHR 0xE2, CHR 0x80, CHR 0xA8]) sampleState = None"
  by (simp add: handleEdit_begin_def sample_currentVersion sample_fields trim_def whiteSpace_def
        stripLeading.simps orElse_def)

section \<open>Double arithmetic\<close>

lemma pickExp_range: "- 1074 \<le> pickExp k a \<and> pickExp k a \<le> int k - 1074"
  by (induction k) auto

lemma pickExp_lower: "- 1074 < pickExp k a \<Longrightarrow> 2 powi (pickExp k a + 52) \<le> a"
  by (induction k) (auto split: if_splits)



lemma doubleExp_small: "a < 2 powi 53 \<Longrightarrow> doubleExp a \<le> 0"
proof (rule ccontr)
  assume a: "a < 2 powi 53" and "\<not> doubleExp a \<le> 0"
  then have pos: "0 < doubleExp a" by simp
  then have "2 powi (doubleExp a + 52) \<le> a"
    unfolding doubleExp_def by (intro pickExp_lower) simp
  moreover have "(2::rat) powi 53 \<le> 2 powi (doubleExp a + 52)"
    using pos by (intro power_int_increasing) auto
  ultimately show False using a by simp
qed

lemma roundHalfEven_of_int [simp]: "roundHalfEven (of_int k) = k"
  by (simp add: roundHalfEven_def)

lemma roundDouble_of_int:
  assumes "m \<noteq> 0" "\<bar>m\<bar> < 2 ^ 53"
  shows "roundDouble (of_int m) = Num (of_int m)"
proof -
  let ?a = "of_int \<bar>m\<bar> :: rat"
  let ?e = "doubleExp ?a"
  have "?a < of_int (2 ^ 53)" using assms(2) by (simp only: of_int_less_iff)
  also have "(of_int (2 ^ 53) :: rat) = 2 powi 53" by simp
  finally have small: "?a < 2 powi 53" .
  from small have e0: "?e \<le> 0" by (rule doubleExp_small)
  have "?a / 2 powi ?e = ?a * 2 powi (- ?e)" by (simp add: power_int_minus field_simps)
  also have "\<dots> = ?a * 2 ^ nat (- ?e)" using e0 by (simp add: power_int_def)
  also have "\<dots> = of_int (\<bar>m\<bar> * 2 ^ nat (- ?e))" by simp
  finally have q: "?a / 2 powi ?e = of_int (\<bar>m\<bar> * 2 ^ nat (- ?e))" .
  have v: "of_int (roundHalfEven (?a / 2 powi ?e)) * 2 powi ?e = ?a"
    unfolding q roundHalfEven_of_int using e0 by (simp add: power_int_def field_simps)
  have lt: "?a < 2 powi 1024"
    using small power_int_increasing [of 53 1024 "2::rat"] by simp
  have nz: "?a \<noteq> 0" using assms(1) by simp
  have abs: "\<bar>of_int m :: rat\<bar> = ?a" by simp
  show ?thesis
    unfolding roundDouble_def Let_def abs v using lt nz assms(1)
    by (auto simp: not_le abs_if)
qed

lemma roundDouble_numeral [simp]:
  "numeral w < (2::int) ^ 53 \<Longrightarrow> roundDouble (numeral w) = Num (numeral w)"
  "numeral w < (2::int) ^ 53 \<Longrightarrow> roundDouble (- numeral w) = Num (- numeral w)"
  using roundDouble_of_int [of "numeral w"] roundDouble_of_int [of "- numeral w"] by simp_all



lemma exactDouble_numeral [simp]:
  "numeral w < (2::int) ^ 53 \<Longrightarrow> exactDouble (numeral w)"
  "numeral w < (2::int) ^ 53 \<Longrightarrow> exactDouble (- numeral w)"
  "exactDouble 0"
  by (simp_all add: exactDouble_def) (simp add: roundDouble_def doubleExp_def roundHalfEven_def)

lemma num_mul_exact:
  "exactDouble (a * b) \<Longrightarrow> 0 \<le> a \<Longrightarrow> 0 \<le> b \<Longrightarrow> num_mul (Num a) (Num b) = Num (a * b)"
  by (auto simp: num_mul_def exactDouble_def signedZero_def)








section \<open>Layout placement\<close>




text \<open>
  C1. The preview treats a layout without \<open>scale\<close> like the default layout, but the
  compositor does not: with \<open>scale\<close> absent every argument of the draw call is \<open>NaN\<close>,
  while the default layout draws the 200 by 100 logo centred at (540, 310).
\<close>

theorem compose_ignores_preview_defaults:
  "previewTransform \<lparr>scale = Undefined, stretchX = Num 1, stretchY = Num 1,
                     translateX = Num 0, translateY = Num 0\<rparr>
     = previewTransform DEFAULT_LAYOUT
   \<and> c_draws (drawWithLayout blankCanvas imgLogo
        \<lparr>scale = Undefined, stretchX = Num 1, stretchY = Num 1, translateX = Num 0, translateY = Num 0\<rparr>)
     = [\<lparr>d_img = imgLogo, d_x = NaN, d_y = NaN, d_w = NaN, d_h = NaN\<rparr>]
   \<and> c_draws (drawWithLayout blankCanvas imgLogo DEFAULT_LAYOUT)
     = [\<lparr>d_img = imgLogo, d_x = Num 540, d_y = Num 310, d_w = Num 200, d_h = Num 100\<rparr>]"
  by (simp add: previewTransform_def DEFAULT_LAYOUT_def drawWithLayout_def blankCanvas_def imgLogo_def
        num_mul_def num_add_def num_sub_def num_div_def signedZero_def)

section \<open>Compositing\<close>

lemma drawLayers_foldl:
  "drawLayers ld c ls =
     foldl (\<lambda>c l. drawWithLayout c (the (ld (layer_url l))) (layer_layout l)) c
       (filter (\<lambda>l. ld (layer_url l) \<noteq> None) ls)"
  by (induction ls arbitrary: c) (auto split: option.splits)

text \<open>
  C4. With a 2D context and a base image that decodes, \<open>composeImage\<close> returns the
  encoded canvas on which the base and then exactly the layers that decode were drawn, in
  list order; so a layer that fails to decode changes nothing but its own absence. When the
  base image does not decode, \<open>composeImage\<close> returns an error.
\<close>

theorem composeImage_robust:
  "(env_ctx env \<and> env_loadImage env imageUrl = Some baseImg \<longrightarrow>
      composeImage env imageUrl bl layers =
        Inr (env_toDataURL env
          (foldl (\<lambda>c l. drawWithLayout c (the (env_loadImage env (layer_url l))) (layer_layout l))
             (drawWithLayout blankCanvas baseImg bl)
             (filter (\<lambda>l. env_loadImage env (layer_url l) \<noteq> None) layers)))
      \<and> (env_loadImage env (layer_url bad) = None \<longrightarrow>
           composeImage env imageUrl bl (xs @ bad # ys) = composeImage env imageUrl bl (xs @ ys)))
   \<and> (env_loadImage env imageUrl = None \<longrightarrow> (\<exists>e. composeImage env imageUrl bl layers = Inl e))"
  by (simp add: composeImage_def drawLayers_foldl)

text \<open>
  The base with three layers, the second of which cannot be decoded: the result is that
  of the base with the first and the third layer. A base that cannot be decoded is an error.
\<close>

theorem composeImage_robust_witness:
  "env_ctx sampleEnv \<and> env_loadImage sampleEnv ''data:base'' = Some imgBase
   \<and> env_loadImage sampleEnv (layer_url layerBroken) = None
   \<and> composeImage sampleEnv ''data:base'' DEFAULT_LAYOUT [layerLogo, layerBroken, layerFace]
       = composeImage sampleEnv ''data:base'' DEFAULT_LAYOUT [layerLogo, layerFace]
   \<and> composeImage sampleEnv ''data:base'' DEFAULT_LAYOUT [layerLogo, layerBroken, layerFace]
       = Inr ''data:base;data:logo;data:face;''
   \<and> env_loadImage sampleEnv ''data:gone'' = None
   \<and> (\<exists>e. composeImage sampleEnv ''data:gone'' DEFAULT_LAYOUT [layerLogo] = Inl e)"
proof -
  have h1: "env_ctx sampleEnv" and h2: "env_loadImage sampleEnv ''data:base'' = Some imgBase"
    and h3: "env_loadImage sampleEnv (layer_url layerBroken) = None"
    and h4: "env_loadImage sampleEnv ''data:gone'' = None"
    by (simp_all add: sampleEnv_def layerBroken_def)
  note t = composeImage_robust [of sampleEnv "''data:base''" imgBase DEFAULT_LAYOUT _ layerBroken
      "[layerLogo]" "[layerFace]"]
  have skip: "composeImage sampleEnv ''data:base'' DEFAULT_LAYOUT [layerLogo, layerBroken, layerFace]
       = composeImage sampleEnv ''data:base'' DEFAULT_LAYOUT [layerLogo, layerFace]"
    using t h1 h2 h3 by simp
  have val: "composeImage sampleEnv ''data:base'' DEFAULT_LAYOUT [layerLogo, layerFace]
       = Inr ''data:base;data:logo;data:face;''"
    by (simp add: composeImage_def sampleEnv_def layerLogo_def layerFace_def drawWithLayout_def
          blankCanvas_def imgBase_def imgLogo_def imgFace_def Let_def)
  have err: "\<exists>e. composeImage sampleEnv ''data:gone'' DEFAULT_LAYOUT [layerLogo] = Inl e"
    using composeImage_robust [of sampleEnv "''data:gone''" imgBase DEFAULT_LAYOUT "[layerLogo]"] h4
    by simp
  show ?thesis using h1 h2 h3 h4 skip val err by simp
qed

section \<open>Version history\<close>

text \<open>
  C2. For a current index between -1 and the last index, \<open>addToHistory\<close> keeps the
  versions up to the current index, appends the new version and makes it current. So
  [A, B, C] with index 1 becomes [A, B, D] with index 2, and the empty history with index
  -1 becomes [D] with index 0.
\<close>

theorem addToHistory_branch_on_write:
  fixes s :: AppState and newId url :: string and now :: int and p :: "string option"
    and layers :: "Layer list" and custom :: "Layout option"
  defines "D \<equiv> \<lparr>v_id = newId, v_url = url, v_layers = layers,
                 v_baseLayout = Some (case custom of Some l \<Rightarrow> l | None \<Rightarrow> baseLayout s),
                 v_prompt = p, v_timestamp = now\<rparr>"
    and "s' \<equiv> addToHistory newId now url p layers custom s"
  shows "(- 1 \<le> currentIdx s \<and> currentIdx s \<le> int (length (history s)) - 1 \<longrightarrow>
            history s' = take (nat (currentIdx s + 1)) (history s) @ [D]
          \<and> currentIdx s' = currentIdx s + 1
          \<and> currentIdx s' = int (length (history s')) - 1)
       \<and> (history s = [A, B, C] \<and> currentIdx s = 1 \<longrightarrow> history s' = [A, B, D] \<and> currentIdx s' = 2)
       \<and> (history s = [] \<and> currentIdx s = - 1 \<longrightarrow> history s' = [D] \<and> currentIdx s' = 0)"
proof -
  have gen: "history s' = take (nat (currentIdx s + 1)) (history s) @ [D]
          \<and> currentIdx s' = currentIdx s + 1
          \<and> currentIdx s' = int (length (history s')) - 1"
    if "- 1 \<le> currentIdx s" "currentIdx s \<le> int (length (history s)) - 1"
  proof -
    have "slice0 (history s) (currentIdx s + 1) = take (nat (currentIdx s + 1)) (history s)"
      using that by (intro slice0_take) auto
    moreover have "length (take (nat (currentIdx s + 1)) (history s)) = nat (currentIdx s + 1)"
      using that by simp
    ultimately show ?thesis
      using that by (simp add: s'_def D_def addToHistory_def Let_def)
  qed
  have abc: "history s' = [A, B, D] \<and> currentIdx s' = 2" if "history s = [A, B, C]" "currentIdx s = 1"
    using gen that by simp
  have emp: "history s' = [D] \<and> currentIdx s' = 0" if "history s = []" "currentIdx s = - 1"
    using gen that by simp
  show ?thesis using gen abc emp by blast
qed

text \<open>The two scenarios on the sample session and on the initial state.\<close>

theorem addToHistory_branch_on_write_witness:
  "history sampleState = [verA, verB, verC] \<and> currentIdx sampleState = 1
   \<and> history (addToHistory ''d'' 400 ''data:new'' None [] (Some DEFAULT_LAYOUT) sampleState)
       = [verA, verB,
          \<lparr>v_id = ''d'', v_url = ''data:new'', v_layers = [], v_baseLayout = Some DEFAULT_LAYOUT,
           v_prompt = None, v_timestamp = 400\<rparr>]
   \<and> currentIdx (addToHistory ''d'' 400 ''data:new'' None [] (Some DEFAULT_LAYOUT) sampleState) = 2
   \<and> history initialState = [] \<and> currentIdx initialState = - 1
   \<and> history (addToHistory ''d'' 400 ''data:new'' None [] (Some DEFAULT_LAYOUT) initialState)
       = [\<lparr>v_id = ''d'', v_url = ''data:new'', v_layers = [], v_baseLayout = Some DEFAULT_LAYOUT,
           v_prompt = None, v_timestamp = 400\<rparr>]
   \<and> currentIdx (addToHistory ''d'' 400 ''data:new'' None [] (Some DEFAULT_LAYOUT) initialState) = 0"
proof -
  have h: "history sampleState = [verA, verB, verC]" "currentIdx sampleState = 1"
    by (simp_all add: sampleState_def)
  have i: "history initialState = []" "currentIdx initialState = - 1"
    by (simp_all add: initialState_def)
  show ?thesis
    using addToHistory_branch_on_write
            [where s = sampleState and A = verA and B = verB and C = verC and newId = "''d''"
               and url = "''data:new''" and layers = "[]" and custom = "Some DEFAULT_LAYOUT"
               and p = None and now = 400]
          addToHistory_branch_on_write
            [where s = initialState and A = verA and B = verB and C = verC and newId = "''d''"
               and url = "''data:new''" and layers = "[]" and custom = "Some DEFAULT_LAYOUT"
               and p = None and now = 400]
          h i
    by simp
qed

text \<open>
  C3. \<open>removeLayer\<close> does not look whether the id names a layer. With a current version
  and an id that none of its layers has, it still appends a version (same base, same
  layers, the session's base layout, prompt "Removed Layer") after the current one and
  makes it current, dropping what came after. It changes nothing only when there is no
  current version. No error is raised in either case.
\<close>

theorem removeLayer_absent_id:
  "(currentVersion s = Some cv \<and> ident \<notin> layer_id ` set (v_layers cv) \<longrightarrow>
      history (removeLayer newId now ident s) =
        take (nat (currentIdx s) + 1) (history s) @
          [\<lparr>v_id = newId, v_url = v_url cv, v_layers = v_layers cv,
            v_baseLayout = Some (baseLayout s), v_prompt = Some ''Removed Layer'',
            v_timestamp = now\<rparr>]
    \<and> currentIdx (removeLayer newId now ident s) = currentIdx s + 1
    \<and> length (history (removeLayer newId now ident s)) = nat (currentIdx s) + 2)
   \<and> (currentVersion s = None \<longrightarrow> removeLayer newId now ident s = s)"
proof -
  have "history (removeLayer newId now ident s) =
        take (nat (currentIdx s) + 1) (history s) @
          [\<lparr>v_id = newId, v_url = v_url cv, v_layers = v_layers cv,
            v_baseLayout = Some (baseLayout s), v_prompt = Some ''Removed Layer'',
            v_timestamp = now\<rparr>]
    \<and> currentIdx (removeLayer newId now ident s) = currentIdx s + 1
    \<and> length (history (removeLayer newId now ident s)) = nat (currentIdx s) + 2"
    if cv: "currentVersion s = Some cv" and absent: "ident \<notin> layer_id ` set (v_layers cv)"
  proof -
    from currentVersion_SomeD [OF cv]
    have idx: "0 \<le> currentIdx s" "nat (currentIdx s) < length (history s)" by auto
    have keep: "filter (\<lambda>l. layer_id l \<noteq> ident) (v_layers cv) = v_layers cv"
      using absent by (auto intro: filter_True)
    have sl: "slice0 (history s) (currentIdx s + 1) = take (nat (currentIdx s) + 1) (history s)"
      using idx slice0_take [of "currentIdx s + 1" "history s"] by (simp add: nat_add_distrib)
    show ?thesis
      using cv idx by (simp add: removeLayer_def addToHistory_def Let_def keep sl)
  qed
  moreover have "removeLayer newId now ident s = s" if "currentVersion s = None"
    using that by (simp add: removeLayer_def)
  ultimately show ?thesis by blast
qed

text \<open>
  On the sample session no layer of the current version has the id "ghost"; removing it
  replaces the third version by a copy of the second and moves the index. On the initial
  state nothing happens.
\<close>

theorem removeLayer_absent_id_witness:
  "currentVersion sampleState = Some verB \<and> ''ghost'' \<notin> layer_id ` set (v_layers verB)
   \<and> history (removeLayer ''n'' 400 ''ghost'' sampleState) =
       [verA, verB,
        \<lparr>v_id = ''n'', v_url = ''data:base'', v_layers = [layerLogo, layerBroken, layerFace],
         v_baseLayout = Some DEFAULT_LAYOUT, v_prompt = Some ''Removed Layer'', v_timestamp = 400\<rparr>]
   \<and> currentIdx (removeLayer ''n'' 400 ''ghost'' sampleState) = 2
   \<and> currentVersion initialState = None
   \<and> removeLayer ''n'' 400 ''ghost'' initialState = initialState"
proof -
  have a: "''ghost'' \<notin> layer_id ` set (v_layers verB)"
    by (simp add: verB_def layerLogo_def layerBroken_def layerFace_def)
  have i: "currentVersion initialState = None"
    by (simp add: currentVersion_def initialState_def)
  have f: "history sampleState = [verA, verB, verC]" "currentIdx sampleState = 1"
    "baseLayout sampleState = DEFAULT_LAYOUT" "v_url verB = ''data:base''"
    "v_layers verB = [layerLogo, layerBroken, layerFace]"
    by (simp_all add: sampleState_def verB_def)
  show ?thesis
    using removeLayer_absent_id [of sampleState verB "''ghost''" "''n''" 400]
          removeLayer_absent_id [of initialState verB "''ghost''" "''n''" 400]
          sample_currentVersion a i f
    by simp
qed

text \<open>
  The claim as stated fails there: the call with the absent id changes the history and
  the index.
\<close>

theorem removeLayer_absent_id_counterexample:
  "currentVersion sampleState = Some verB \<and> ''ghost'' \<notin> layer_id ` set (v_layers verB)
   \<and> history (removeLayer ''n'' 400 ''ghost'' sampleState) \<noteq> history sampleState
   \<and> currentIdx (removeLayer ''n'' 400 ''ghost'' sampleState) \<noteq> currentIdx sampleState
   \<and> currentVersion (removeLayer ''n'' 400 ''ghost'' sampleState) \<noteq> currentVersion sampleState"
  by (simp add: sample_currentVersion removeLayer_def addToHistory_def slice0_def Let_def
        currentVersion_def sampleState_def verA_def verB_def verC_def
        layerLogo_def layerBroken_def layerFace_def)

text \<open>
  C7. With a current version whose stored base layout is the one the session holds (which
  the effect after every change of history or index ensures), \<open>updateActiveTransform\<close>
  keeps the length of the history, the index and every other version. In the current
  version it keeps id, base image, prompt, time stamp and the number of layers. With the
  base selected it sets the one field of the base layout and keeps the other four and all
  layers; with a layer selected it keeps the base layout, sets that one field in the
  layers with the selected id and keeps every other layer and every other field.
\<close>

theorem updateActiveTransform_frame:
  fixes s :: AppState and key :: LayoutKey and "value" :: number
  defines "s' \<equiv> updateActiveTransform key value s"
  assumes cv: "currentVersion s = Some cv"
    and sync: "baseLayout s = (case v_baseLayout cv of Some l \<Rightarrow> l | None \<Rightarrow> DEFAULT_LAYOUT)"
  shows "length (history s') = length (history s)
       \<and> currentIdx s' = currentIdx s
       \<and> (\<forall>j. j < length (history s) \<and> j \<noteq> nat (currentIdx s) \<longrightarrow> history s' ! j = history s ! j)
       \<and> (\<exists>cv'. currentVersion s' = Some cv'
            \<and> v_id cv' = v_id cv \<and> v_url cv' = v_url cv \<and> v_prompt cv' = v_prompt cv
            \<and> v_timestamp cv' = v_timestamp cv
            \<and> length (v_layers cv') = length (v_layers cv)
            \<and> (activeLayerId s = ''base'' \<longrightarrow>
                  v_layers cv' = v_layers cv
                \<and> (\<exists>bl. v_baseLayout cv' = Some bl \<and> layout_get key bl = value
                     \<and> (\<forall>k. k \<noteq> key \<longrightarrow>
                           layout_get k bl =
                           layout_get k (case v_baseLayout cv of Some l \<Rightarrow> l | None \<Rightarrow> DEFAULT_LAYOUT))))
            \<and> (activeLayerId s \<noteq> ''base'' \<longrightarrow>
                  v_baseLayout cv' = v_baseLayout cv
                \<and> (\<forall>i. i < length (v_layers cv) \<longrightarrow>
                      layer_id (v_layers cv' ! i) = layer_id (v_layers cv ! i)
                    \<and> layer_url (v_layers cv' ! i) = layer_url (v_layers cv ! i)
                    \<and> layer_name (v_layers cv' ! i) = layer_name (v_layers cv ! i)
                    \<and> (layer_id (v_layers cv ! i) \<noteq> activeLayerId s \<longrightarrow>
                          v_layers cv' ! i = v_layers cv ! i)
                    \<and> (layer_id (v_layers cv ! i) = activeLayerId s \<longrightarrow>
                          layout_get key (layer_layout (v_layers cv' ! i)) = value
                        \<and> (\<forall>k. k \<noteq> key \<longrightarrow>
                              layout_get k (layer_layout (v_layers cv' ! i)) =
                              layout_get k (layer_layout (v_layers cv ! i)))))))"
proof -
  from currentVersion_SomeD [OF cv]
  have idx: "0 \<le> currentIdx s" "nat (currentIdx s) < length (history s)"
    and cv_eq: "cv = history s ! nat (currentIdx s)" by auto
  show ?thesis
  proof (cases "activeLayerId s = ''base''")
    case True
    have h: "history s' = (history s)[nat (currentIdx s) :=
               cv\<lparr>v_baseLayout := Some (layout_set key value (baseLayout s))\<rparr>]"
      and i: "currentIdx s' = currentIdx s"
      using True cv by (simp_all add: s'_def updateActiveTransform_def Let_def)
    have c: "currentVersion s' = Some (cv\<lparr>v_baseLayout := Some (layout_set key value (baseLayout s))\<rparr>)"
      using idx by (simp add: currentVersion_def h i)
    show ?thesis
      using True idx sync by (simp add: h i c layout_get_set_same layout_get_set_other)
  next
    case False
    let ?ls = "map (\<lambda>l. if layer_id l = activeLayerId s
                         then l\<lparr>layer_layout := layout_set key value (layer_layout l)\<rparr> else l)
                   (v_layers cv)"
    have h: "history s' = (history s)[nat (currentIdx s) := cv\<lparr>v_layers := ?ls\<rparr>]"
      and i: "currentIdx s' = currentIdx s"
      using False cv by (simp_all add: s'_def updateActiveTransform_def Let_def)
    have c: "currentVersion s' = Some (cv\<lparr>v_layers := ?ls\<rparr>)"
      using idx by (simp add: currentVersion_def h i)
    show ?thesis
      using False idx by (simp add: h i c layout_get_set_same layout_get_set_other)
  qed
qed

text \<open>
  Moving the base of the sample session's current version 25 percent to the right.
\<close>

theorem updateActiveTransform_frame_witness:
  "currentVersion sampleState = Some verB
   \<and> baseLayout sampleState = (case v_baseLayout verB of Some l \<Rightarrow> l | None \<Rightarrow> DEFAULT_LAYOUT)
   \<and> length (history (updateActiveTransform KTranslateX (Num 25) sampleState)) = 3
   \<and> currentIdx (updateActiveTransform KTranslateX (Num 25) sampleState) = 1
   \<and> history (updateActiveTransform KTranslateX (Num 25) sampleState) ! 0 = verA
   \<and> history (updateActiveTransform KTranslateX (Num 25) sampleState) ! 2 = verC
   \<and> history (updateActiveTransform KTranslateX (Num 25) sampleState) ! 1 =
       verB\<lparr>v_baseLayout := Some (DEFAULT_LAYOUT\<lparr>translateX := Num 25\<rparr>)\<rparr>"
proof -
  have sync: "baseLayout sampleState = (case v_baseLayout verB of Some l \<Rightarrow> l | None \<Rightarrow> DEFAULT_LAYOUT)"
    by (simp add: sampleState_def verB_def)
  have f: "history sampleState = [verA, verB, verC]" "currentIdx sampleState = 1"
    by (simp_all add: sampleState_def)
  from updateActiveTransform_frame [OF sample_currentVersion sync, of KTranslateX "Num 25"]
  have len: "length (history (updateActiveTransform KTranslateX (Num 25) sampleState)) = 3"
    and idx: "currentIdx (updateActiveTransform KTranslateX (Num 25) sampleState) = 1"
    and others: "\<forall>j. j < 3 \<and> j \<noteq> 1 \<longrightarrow>
        history (updateActiveTransform KTranslateX (Num 25) sampleState) ! j = [verA, verB, verC] ! j"
    by (simp_all add: f)
  have zero: "history (updateActiveTransform KTranslateX (Num 25) sampleState) ! 0 = verA"
    using others by simp
  have two: "history (updateActiveTransform KTranslateX (Num 25) sampleState) ! 2 = verC"
    using others by simp
  have one: "history (updateActiveTransform KTranslateX (Num 25) sampleState) ! 1 =
       verB\<lparr>v_baseLayout := Some (DEFAULT_LAYOUT\<lparr>translateX := Num 25\<rparr>)\<rparr>"
    by (simp add: updateActiveTransform_def sample_currentVersion Let_def sample_fields)
  show ?thesis using sample_currentVersion sync len idx zero two one by simp
qed

section \<open>Snapshots and projects\<close>

lemma createSnapshot_projects:
  assumes "currentVersion s = Some cv" "activeProjectId s = Some pid" "pid \<noteq> []"
  shows "projects (createSnapshot dbOk now s) =
           map (\<lambda>p. if p_id p = pid
                    then p\<lparr>p_snapshots := Some (take 12 (cv\<lparr>v_timestamp := now\<rparr> # activeSnapshots s))\<rparr>
                    else p) (projects s)"
  using assms
  by (simp add: createSnapshot_def truthy_def Let_def slice0_MAX)

lemma createSnapshot_frame:
  "history (createSnapshot dbOk now s) = history s"
  "currentIdx (createSnapshot dbOk now s) = currentIdx s"
  "activeProjectId (createSnapshot dbOk now s) = activeProjectId s"
  by (simp_all add: createSnapshot_def Let_def split: option.splits)

lemma createSnapshot_currentVersion:
  "currentVersion (createSnapshot dbOk now s) = currentVersion s"
  by (simp add: currentVersion_def createSnapshot_frame)

lemma find_map_snap:
  "find (\<lambda>p. p_id p = pid) (map (\<lambda>p. if p_id p = pid then p\<lparr>p_snapshots := x\<rparr> else p) ps) =
     map_option (\<lambda>p. p\<lparr>p_snapshots := x\<rparr>) (find (\<lambda>p. p_id p = pid) ps)"
  by (induction ps) auto

lemma createSnapshot_activeSnapshots:
  assumes "currentVersion s = Some cv" "activeProjectId s = Some pid" "pid \<noteq> []"
    and "activeProject s \<noteq> None"
  shows "activeSnapshots (createSnapshot dbOk now s) =
           take 12 (cv\<lparr>v_timestamp := now\<rparr> # activeSnapshots s)"
proof -
  have "activeProject (createSnapshot dbOk now s) =
          map_option (\<lambda>p. p\<lparr>p_snapshots := Some (take 12 (cv\<lparr>v_timestamp := now\<rparr> # activeSnapshots s))\<rparr>)
            (activeProject s)"
    using assms(2)
    by (simp add: activeProject_def createSnapshot_frame createSnapshot_projects [OF assms(1-3)]
        find_map_snap)
  then show ?thesis
    using assms(4) by (auto simp: activeSnapshots_def)
qed

lemma createSnapshot_activeProject_defined:
  assumes "currentVersion s = Some cv" "activeProjectId s = Some pid" "pid \<noteq> []"
    and "activeProject s \<noteq> None"
  shows "activeProject (createSnapshot dbOk now s) \<noteq> None"
  using assms
  by (simp add: activeProject_def createSnapshot_frame createSnapshot_projects [OF assms(1-3)]
        find_map_snap)

lemma take_12_Cons_take: "take 12 (x # take 12 xs) = take 12 (x # xs)"
  by (cases xs rule: rev_cases) (simp_all add: take_Cons')

lemma fold_createSnapshot:
  assumes "currentVersion s = Some cv" "activeProjectId s = Some pid" "pid \<noteq> []"
    and "activeProject s \<noteq> None"
  shows "activeSnapshots (fold (createSnapshot dbOk) ts s) =
           (if ts = [] then activeSnapshots s
            else take 12 (rev (map (\<lambda>t. cv\<lparr>v_timestamp := t\<rparr>) ts) @ activeSnapshots s))
       \<and> currentVersion (fold (createSnapshot dbOk) ts s) = Some cv
       \<and> activeProjectId (fold (createSnapshot dbOk) ts s) = Some pid
       \<and> activeProject (fold (createSnapshot dbOk) ts s) \<noteq> None"
  using assms
proof (induction ts arbitrary: s rule: rev_induct)
  case Nil
  then show ?case by simp
next
  case (snoc t ts)
  let ?m = "fold (createSnapshot dbOk) ts s"
  from snoc.IH [OF snoc.prems]
  have m: "currentVersion ?m = Some cv" "activeProjectId ?m = Some pid" "activeProject ?m \<noteq> None"
    and snaps: "activeSnapshots ?m =
           (if ts = [] then activeSnapshots s
            else take 12 (rev (map (\<lambda>t. cv\<lparr>v_timestamp := t\<rparr>) ts) @ activeSnapshots s))"
    by auto
  have "activeSnapshots (createSnapshot dbOk t ?m) = take 12 (cv\<lparr>v_timestamp := t\<rparr> # activeSnapshots ?m)"
    using createSnapshot_activeSnapshots [OF m(1,2) snoc.prems(3) m(3)] .
  also have "\<dots> = take 12 (cv\<lparr>v_timestamp := t\<rparr> # rev (map (\<lambda>t. cv\<lparr>v_timestamp := t\<rparr>) ts) @ activeSnapshots s)"
  proof (cases "ts = []")
    case True
    then show ?thesis by (simp add: snaps)
  next
    case False
    then show ?thesis by (simp only: snaps if_False take_12_Cons_take append_Cons)
  qed
  finally show ?case
    using m createSnapshot_activeProject_defined [OF m(1,2) snoc.prems(3) m(3)]
    by (simp add: createSnapshot_currentVersion createSnapshot_frame)
qed


lemma createSnapshot_noop:
  "currentVersion s = None \<or> activeProjectId s = None \<or> activeProjectId s = Some [] \<Longrightarrow>
     createSnapshot dbOk now s = s"
  by (auto simp: createSnapshot_def truthy_def split: option.splits)

lemma capped_createSnapshot: "snapshotsCapped s \<Longrightarrow> snapshotsCapped (createSnapshot dbOk now s)"
  by (auto simp: snapshotsCapped_def createSnapshot_def truthy_def Let_def slice0_def list_all_iff
        snapshotCount_def MAX_SNAPSHOTS_def split: option.splits)

lemma capped_storeCurrentProjectState:
  "snapshotsCapped s \<Longrightarrow> snapshotsCapped (storeCurrentProjectState dbOk newId now s)"
  by (auto simp: snapshotsCapped_def storeCurrentProjectState_def list_all_iff
        snapshotCount_def MAX_SNAPSHOTS_def split: option.splits)

lemma capped_deleteProject: "snapshotsCapped s \<Longrightarrow> snapshotsCapped (deleteProject dbOk ident s)"
  by (auto simp: snapshotsCapped_def deleteProject_def executeStartNewProject_def Let_def list_all_iff)

lemma take_12_rev_13:
  assumes "length ts = 13"
  shows "take 12 (rev (map f ts)) = rev (map f (tl ts))"
proof (cases ts)
  case Nil
  with assms show ?thesis by simp
next
  case (Cons t ts')
  with assms have "length (rev (map f ts')) = 12" by simp
  then show ?thesis using Cons by simp
qed

text \<open>
  C6. With a current version and an active project id, \<open>createSnapshot\<close> gives every
  project with that id the list made of a copy of the current version with the new time
  stamp followed by the active project's snapshots, cut to its first \<open>MAX_SNAPSHOTS\<close> = 12
  entries, and leaves the other projects, the history and the index alone. Without a
  current version or an active project id it changes nothing. The bound of 12 on every
  project's snapshots is kept by \<open>createSnapshot\<close>, by saving and by deleting a project.
  Repeated snapshots of an existing active project leave the 12 most recent, newest first;
  in particular 13 snapshots from an empty list leave 12, without the first one.
\<close>

theorem createSnapshot_cap:
  fixes s :: AppState and dbOk :: bool and now :: int
  defines "s' \<equiv> createSnapshot dbOk now s"
  shows "(currentVersion s = Some cv \<and> activeProjectId s = Some pid \<and> pid \<noteq> [] \<longrightarrow>
            length (projects s') = length (projects s)
          \<and> (\<forall>i. i < length (projects s) \<longrightarrow>
                (p_id (projects s ! i) \<noteq> pid \<longrightarrow> projects s' ! i = projects s ! i)
              \<and> (p_id (projects s ! i) = pid \<longrightarrow>
                    projects s' ! i =
                      (projects s ! i)\<lparr>p_snapshots :=
                         Some (take (nat MAX_SNAPSHOTS) (cv\<lparr>v_timestamp := now\<rparr> # activeSnapshots s))\<rparr>
                  \<and> int (snapshotCount (projects s' ! i)) \<le> MAX_SNAPSHOTS)))
       \<and> (currentVersion s = None \<or> activeProjectId s = None \<or> activeProjectId s = Some [] \<longrightarrow> s' = s)
       \<and> (snapshotsCapped s \<longrightarrow>
            snapshotsCapped s'
          \<and> snapshotsCapped (storeCurrentProjectState dbOk newId now s)
          \<and> snapshotsCapped (deleteProject dbOk ident s))
       \<and> history s' = history s \<and> currentIdx s' = currentIdx s
       \<and> (currentVersion s = Some cv \<and> activeProjectId s = Some pid \<and> pid \<noteq> []
            \<and> activeProject s \<noteq> None \<and> ts \<noteq> [] \<longrightarrow>
            activeSnapshots (fold (createSnapshot dbOk) ts s) =
              take (nat MAX_SNAPSHOTS) (rev (map (\<lambda>t. cv\<lparr>v_timestamp := t\<rparr>) ts) @ activeSnapshots s))
       \<and> (currentVersion s = Some cv \<and> activeProjectId s = Some pid \<and> pid \<noteq> []
            \<and> activeProject s \<noteq> None \<and> activeSnapshots s = []
            \<and> int (length ts) = MAX_SNAPSHOTS + 1 \<longrightarrow>
            activeSnapshots (fold (createSnapshot dbOk) ts s) =
              rev (map (\<lambda>t. cv\<lparr>v_timestamp := t\<rparr>) (tl ts))
          \<and> int (length (activeSnapshots (fold (createSnapshot dbOk) ts s))) = MAX_SNAPSHOTS)"
proof -
  have M: "nat MAX_SNAPSHOTS = 12" by (simp add: MAX_SNAPSHOTS_def)
  have one: "length (projects s') = length (projects s)
          \<and> (\<forall>i. i < length (projects s) \<longrightarrow>
                (p_id (projects s ! i) \<noteq> pid \<longrightarrow> projects s' ! i = projects s ! i)
              \<and> (p_id (projects s ! i) = pid \<longrightarrow>
                    projects s' ! i =
                      (projects s ! i)\<lparr>p_snapshots :=
                         Some (take (nat MAX_SNAPSHOTS) (cv\<lparr>v_timestamp := now\<rparr> # activeSnapshots s))\<rparr>
                  \<and> int (snapshotCount (projects s' ! i)) \<le> MAX_SNAPSHOTS))"
    if "currentVersion s = Some cv" "activeProjectId s = Some pid" "pid \<noteq> []"
    unfolding s'_def createSnapshot_projects [OF that] M
    by (simp add: snapshotCount_def MAX_SNAPSHOTS_def)
  have two: "s' = s"
    if "currentVersion s = None \<or> activeProjectId s = None \<or> activeProjectId s = Some []"
    unfolding s'_def using that by (rule createSnapshot_noop)
  have three: "snapshotsCapped s'
          \<and> snapshotsCapped (storeCurrentProjectState dbOk newId now s)
          \<and> snapshotsCapped (deleteProject dbOk ident s)" if "snapshotsCapped s"
    unfolding s'_def
    using that capped_createSnapshot capped_storeCurrentProjectState capped_deleteProject by blast
  have four: "history s' = history s \<and> currentIdx s' = currentIdx s"
    unfolding s'_def by (simp add: createSnapshot_frame)
  have five: "activeSnapshots (fold (createSnapshot dbOk) ts s) =
              take (nat MAX_SNAPSHOTS) (rev (map (\<lambda>t. cv\<lparr>v_timestamp := t\<rparr>) ts) @ activeSnapshots s)"
    if "currentVersion s = Some cv" "activeProjectId s = Some pid" "pid \<noteq> []"
       "activeProject s \<noteq> None" "ts \<noteq> []"
    using fold_createSnapshot [OF that(1-4), of dbOk ts] that(5) by (simp add: M)
  have six: "activeSnapshots (fold (createSnapshot dbOk) ts s) =
              rev (map (\<lambda>t. cv\<lparr>v_timestamp := t\<rparr>) (tl ts))
          \<and> int (length (activeSnapshots (fold (createSnapshot dbOk) ts s))) = MAX_SNAPSHOTS"
    if "currentVersion s = Some cv" "activeProjectId s = Some pid" "pid \<noteq> []"
       "activeProject s \<noteq> None" "activeSnapshots s = []" "int (length ts) = MAX_SNAPSHOTS + 1"
  proof -
    have len: "length ts = 13" using that(6) by (simp add: MAX_SNAPSHOTS_def)
    then have "ts \<noteq> []" by auto
    from five [OF that(1-4) this]
    have "activeSnapshots (fold (createSnapshot dbOk) ts s) =
            take 12 (rev (map (\<lambda>t. cv\<lparr>v_timestamp := t\<rparr>) ts))"
      by (simp add: that(5) M)
    then show ?thesis
      using len by (simp add: take_12_rev_13 MAX_SNAPSHOTS_def)
  qed
  show ?thesis using one two three four five six by blast
qed

text \<open>
  Thirteen snapshots of the sample session, taken at times 1 to 13: twelve are kept, the
  newest first, and the one of time 1 is gone.
\<close>

theorem createSnapshot_cap_witness:
  "currentVersion sampleState = Some verB \<and> activeProjectId sampleState = Some ''p1''
   \<and> ''p1'' \<noteq> [] \<and> activeProject sampleState \<noteq> None \<and> activeSnapshots sampleState = []
   \<and> int (length [1, 2, 3, 4, 5, 6, 7, 8, 9, 10, 11, 12, 13 :: int]) = MAX_SNAPSHOTS + 1
   \<and> map v_timestamp
        (activeSnapshots (fold (createSnapshot True) [1, 2, 3, 4, 5, 6, 7, 8, 9, 10, 11, 12, 13] sampleState))
       = [13, 12, 11, 10, 9, 8, 7, 6, 5, 4, 3, 2]
   \<and> int (length
        (activeSnapshots (fold (createSnapshot True) [1, 2, 3, 4, 5, 6, 7, 8, 9, 10, 11, 12, 13] sampleState)))
       = MAX_SNAPSHOTS
   \<and> snapshotsCapped sampleState
   \<and> snapshotsCapped (createSnapshot True 1 sampleState)"
proof -
  have ap: "activeProject sampleState = Some projP1"
    by (simp add: activeProject_def sample_fields projP1_def)
  have h: "activeProjectId sampleState = Some ''p1''" "''p1'' \<noteq> []"
    "activeProject sampleState \<noteq> None" "activeSnapshots sampleState = []"
    "int (length [1, 2, 3, 4, 5, 6, 7, 8, 9, 10, 11, 12, 13 :: int]) = MAX_SNAPSHOTS + 1"
    "snapshotsCapped sampleState"
    by (simp_all add: ap activeSnapshots_def sample_fields projP1_def MAX_SNAPSHOTS_def
          snapshotsCapped_def snapshotCount_def)
  note t = createSnapshot_cap [where s = sampleState and cv = verB and pid = "''p1''" and dbOk = True
      and now = 1 and ts = "[1, 2, 3, 4, 5, 6, 7, 8, 9, 10, 11, 12, 13]"]
  have snaps: "activeSnapshots (fold (createSnapshot True) [1, 2, 3, 4, 5, 6, 7, 8, 9, 10, 11, 12, 13] sampleState)
                 = rev (map (\<lambda>t. verB\<lparr>v_timestamp := t\<rparr>) (tl [1, 2, 3, 4, 5, 6, 7, 8, 9, 10, 11, 12, 13]))"
    and len: "int (length
        (activeSnapshots (fold (createSnapshot True) [1, 2, 3, 4, 5, 6, 7, 8, 9, 10, 11, 12, 13] sampleState)))
       = MAX_SNAPSHOTS"
    and cap: "snapshotsCapped (createSnapshot True 1 sampleState)"
    using t sample_currentVersion h by blast+
  have ts: "map v_timestamp
        (activeSnapshots (fold (createSnapshot True) [1, 2, 3, 4, 5, 6, 7, 8, 9, 10, 11, 12, 13] sampleState))
       = [13, 12, 11, 10, 9, 8, 7, 6, 5, 4, 3, 2]"
    unfolding snaps by simp
  show ?thesis using sample_currentVersion h ts len cap by simp
qed

text \<open>
  C8. \<open>storeCurrentProjectState\<close> branches on whether an active project id is set, not
  on whether a project has it. With a current version and a set (non-empty) id, every
  project with that id gets the current version's image as thumbnail, the whole history
  as revision stack and the new time stamp, keeping its other fields; all other projects,
  the length of the list and the active id stay (so nothing is created when no project has
  the id). With a current version and no id set, a new project with the fresh id, the name
  "Thumbnail n+1" for a list of n projects and no snapshots is put in front and becomes
  the active one. Without a current version nothing changes. History and index are never
  touched.
\<close>

theorem storeCurrentProjectState_upsert:
  fixes s :: AppState and dbOk :: bool and newId :: string and now :: int
  defines "s' \<equiv> storeCurrentProjectState dbOk newId now s"
  shows "(currentVersion s = Some cv \<and> activeProjectId s = Some pid \<and> pid \<noteq> [] \<longrightarrow>
            length (projects s') = length (projects s)
          \<and> activeProjectId s' = Some pid
          \<and> (\<forall>i. i < length (projects s) \<longrightarrow>
                (p_id (projects s ! i) \<noteq> pid \<longrightarrow> projects s' ! i = projects s ! i)
              \<and> (p_id (projects s ! i) = pid \<longrightarrow>
                    projects s' ! i =
                      (projects s ! i)\<lparr>p_thumbnailUrl := v_url cv, p_revisionStack := history s,
                                        p_timestamp := now\<rparr>)))
       \<and> (currentVersion s = Some cv \<and> (activeProjectId s = None \<or> activeProjectId s = Some []) \<longrightarrow>
            projects s' =
              \<lparr>p_id = newId, p_name = ''Thumbnail '' @ show_nat (length (projects s) + 1),
               p_thumbnailUrl = v_url cv, p_timestamp = now, p_revisionStack = history s,
               p_snapshots = Some []\<rparr> # projects s
          \<and> activeProjectId s' = Some newId)
       \<and> (currentVersion s = None \<longrightarrow> s' = s)
       \<and> history s' = history s \<and> currentIdx s' = currentIdx s"
  by (auto simp: s'_def storeCurrentProjectState_def truthy_def split: option.splits)

text \<open>
  Saving the sample session updates its project in place; saving the same session with no
  active project puts "Thumbnail 2" in front of the list.
\<close>

theorem storeCurrentProjectState_upsert_witness:
  "currentVersion sampleState = Some verB \<and> activeProjectId sampleState = Some ''p1'' \<and> ''p1'' \<noteq> []
   \<and> projects (storeCurrentProjectState True ''q'' 400 sampleState) =
       [projP1\<lparr>p_thumbnailUrl := ''data:base'', p_revisionStack := [verA, verB, verC],
               p_timestamp := 400\<rparr>]
   \<and> currentVersion (sampleState\<lparr>activeProjectId := None\<rparr>) = Some verB
   \<and> projects (storeCurrentProjectState True ''q'' 400 (sampleState\<lparr>activeProjectId := None\<rparr>)) =
       [\<lparr>p_id = ''q'', p_name = ''Thumbnail 2'', p_thumbnailUrl = ''data:base'', p_timestamp = 400,
         p_revisionStack = [verA, verB, verC], p_snapshots = Some []\<rparr>, projP1]
   \<and> activeProjectId (storeCurrentProjectState True ''q'' 400 (sampleState\<lparr>activeProjectId := None\<rparr>))
       = Some ''q''"
proof -
  have cv': "currentVersion (sampleState\<lparr>activeProjectId := None\<rparr>) = Some verB"
    by (simp add: currentVersion_def sample_fields)
  have n: "show_nat (Suc (Suc 0)) = ''2''"
    by (simp add: show_nat.simps [of "Suc (Suc 0)"])
  note t1 = storeCurrentProjectState_upsert
      [where s = sampleState and cv = verB and pid = "''p1''" and dbOk = True and newId = "''q''"
         and now = 400]
  note t2 = storeCurrentProjectState_upsert
      [where s = "sampleState\<lparr>activeProjectId := None\<rparr>" and cv = verB and pid = "''p1''"
         and dbOk = True and newId = "''q''" and now = 400]
  have len: "length (projects (storeCurrentProjectState True ''q'' 400 sampleState)) = 1"
    and el: "projects (storeCurrentProjectState True ''q'' 400 sampleState) ! 0 =
       projP1\<lparr>p_thumbnailUrl := ''data:base'', p_revisionStack := [verA, verB, verC],
               p_timestamp := 400\<rparr>"
    using t1 sample_currentVersion by (simp_all add: sample_fields projP1_def verB_def)
  have upd: "projects (storeCurrentProjectState True ''q'' 400 sampleState) =
       [projP1\<lparr>p_thumbnailUrl := ''data:base'', p_revisionStack := [verA, verB, verC],
               p_timestamp := 400\<rparr>]"
    using len el by (cases "projects (storeCurrentProjectState True ''q'' 400 sampleState)") simp_all
  have new: "projects (storeCurrentProjectState True ''q'' 400 (sampleState\<lparr>activeProjectId := None\<rparr>)) =
       [\<lparr>p_id = ''q'', p_name = ''Thumbnail 2'', p_thumbnailUrl = ''data:base'', p_timestamp = 400,
         p_revisionStack = [verA, verB, verC], p_snapshots = Some []\<rparr>, projP1]
   \<and> activeProjectId (storeCurrentProjectState True ''q'' 400 (sampleState\<lparr>activeProjectId := None\<rparr>))
       = Some ''q''"
    using t2 cv' by (simp add: sample_fields n verB_def)
  show ?thesis using sample_currentVersion cv' upd new by (simp add: sample_fields)
qed

text \<open>
  The claim as stated fails when the active id names no project: a current version
  exists, no project has the id "zz", and saving neither updates a project nor creates one.
\<close>

theorem storeCurrentProjectState_upsert_counterexample:
  "currentVersion (sampleState\<lparr>activeProjectId := Some ''zz''\<rparr>) = Some verB
   \<and> activeProject (sampleState\<lparr>activeProjectId := Some ''zz''\<rparr>) = None
   \<and> projects (storeCurrentProjectState True ''q'' 400 (sampleState\<lparr>activeProjectId := Some ''zz''\<rparr>))
       = [projP1]
   \<and> activeProjectId (storeCurrentProjectState True ''q'' 400 (sampleState\<lparr>activeProjectId := Some ''zz''\<rparr>))
       = Some ''zz''"
proof -
  have cv': "currentVersion (sampleState\<lparr>activeProjectId := Some ''zz''\<rparr>) = Some verB"
    by (simp add: currentVersion_def sample_fields)
  show ?thesis
    by (simp add: cv' activeProject_def storeCurrentProjectState_def truthy_def sample_fields projP1_def)
qed

section \<open>Remote edits\<close>

lemma handleEdit_finish_busy_cleared:
  "currentVersion closure \<noteq> None \<Longrightarrow>
     isProcessing (handleEdit_finish env newId now closure rawPrompt cur) = False"
  by (auto simp: handleEdit_finish_def Let_def split: option.splits sum.splits)

lemma handleGenerateFromScratch_finish_busy_cleared:
  "isProcessing (handleGenerateFromScratch_finish env newId now closure templatePrompt cur) = False"
  by (auto simp: handleGenerateFromScratch_finish_def Let_def split: option.splits)

text \<open>
  C10. When \<open>handleEdit\<close> passes its guard, the composition of the current version (its
  base, the session's base layout, its layers) succeeds and the edit service answers, the
  history becomes the versions up to the current one followed by one new version that
  holds the service's answer, no layers and the default base layout. When
  \<open>handleGenerateFromScratch\<close> gets an answer, the same holds with the generated image.
  In every other case the history is unchanged: whatever either handler appends has an
  empty layer list and the default base layout.
\<close>

theorem remote_result_version_is_flat:
  fixes env :: Env and s :: AppState and newId templatePrompt :: string and now :: int
    and customPrompt :: "string option"
  defines "e' \<equiv> handleEdit env newId now customPrompt s"
    and "g' \<equiv> handleGenerateFromScratch env newId now templatePrompt s"
  shows "(handleEdit_begin customPrompt s = Some (rawPrompt, busy)
          \<and> currentVersion s = Some cv
          \<and> composeImage env (v_url cv) (baseLayout s) (v_layers cv) = Inr composed
          \<and> env_editImage env composed (orElse rawPrompt ''Clean background removal.'') = Some result \<longrightarrow>
            history e' =
              take (nat (currentIdx s) + 1) (history s) @
                [\<lparr>v_id = newId, v_url = result, v_layers = [], v_baseLayout = Some DEFAULT_LAYOUT,
                  v_prompt = Some (orElse rawPrompt ''AI Edit''), v_timestamp = now\<rparr>]
          \<and> currentIdx e' = currentIdx s + 1
          \<and> isProcessing e' = False)
       \<and> (history e' = history s
            \<or> (\<exists>v. history e' = slice0 (history s) (currentIdx s + 1) @ [v]
                  \<and> v_layers v = [] \<and> v_baseLayout v = Some DEFAULT_LAYOUT))
       \<and> (env_generateNewImage env templatePrompt = Some result \<longrightarrow>
            history g' =
              slice0 (history s) (currentIdx s + 1) @
                [\<lparr>v_id = newId, v_url = result, v_layers = [], v_baseLayout = Some DEFAULT_LAYOUT,
                  v_prompt = Some templatePrompt, v_timestamp = now\<rparr>]
          \<and> currentIdx g' = int (length (slice0 (history s) (currentIdx s + 1)))
          \<and> isProcessing g' = False)
       \<and> (history g' = history s
            \<or> (\<exists>v. history g' = slice0 (history s) (currentIdx s + 1) @ [v]
                  \<and> v_layers v = [] \<and> v_baseLayout v = Some DEFAULT_LAYOUT))"
proof -
  have one: "history e' =
              take (nat (currentIdx s) + 1) (history s) @
                [\<lparr>v_id = newId, v_url = result, v_layers = [], v_baseLayout = Some DEFAULT_LAYOUT,
                  v_prompt = Some (orElse rawPrompt ''AI Edit''), v_timestamp = now\<rparr>]
          \<and> currentIdx e' = currentIdx s + 1
          \<and> isProcessing e' = False"
    if b: "handleEdit_begin customPrompt s = Some (rawPrompt, busy)"
      and cv: "currentVersion s = Some cv"
      and c: "composeImage env (v_url cv) (baseLayout s) (v_layers cv) = Inr composed"
      and r: "env_editImage env composed (orElse rawPrompt ''Clean background removal.'') = Some result"
  proof -
    from currentVersion_SomeD [OF cv]
    have idx: "0 \<le> currentIdx s" "nat (currentIdx s) < length (history s)" by auto
    have sl: "slice0 (history s) (currentIdx s + 1) = take (nat (currentIdx s) + 1) (history s)"
      using idx slice0_take [of "currentIdx s + 1" "history s"] by (simp add: nat_add_distrib)
    show ?thesis
      using idx by (simp add: e'_def handleEdit_def b handleEdit_finish_def cv c r addToHistory_def Let_def sl)
  qed
  have two: "history e' = history s
            \<or> (\<exists>v. history e' = slice0 (history s) (currentIdx s + 1) @ [v]
                  \<and> v_layers v = [] \<and> v_baseLayout v = Some DEFAULT_LAYOUT)"
    by (auto simp: e'_def handleEdit_def handleEdit_begin_def handleEdit_finish_def addToHistory_def
          Let_def split: option.splits sum.splits if_splits)
  have three: "history g' =
              slice0 (history s) (currentIdx s + 1) @
                [\<lparr>v_id = newId, v_url = result, v_layers = [], v_baseLayout = Some DEFAULT_LAYOUT,
                  v_prompt = Some templatePrompt, v_timestamp = now\<rparr>]
          \<and> currentIdx g' = int (length (slice0 (history s) (currentIdx s + 1)))
          \<and> isProcessing g' = False"
    if "env_generateNewImage env templatePrompt = Some result"
    using that
    by (simp add: g'_def handleGenerateFromScratch_def handleGenerateFromScratch_begin_def
          handleGenerateFromScratch_finish_def addToHistory_def Let_def)
  have four: "history g' = history s
            \<or> (\<exists>v. history g' = slice0 (history s) (currentIdx s + 1) @ [v]
                  \<and> v_layers v = [] \<and> v_baseLayout v = Some DEFAULT_LAYOUT)"
    by (auto simp: g'_def handleGenerateFromScratch_def handleGenerateFromScratch_begin_def
          handleGenerateFromScratch_finish_def addToHistory_def Let_def split: option.splits)
  show ?thesis using one two three four by blast
qed

text \<open>
  An edit of the sample session: the three layers of the current version go into the
  composed image that is sent, and the new version has none.
\<close>

theorem remote_result_version_is_flat_witness:
  "handleEdit_begin (Some ''make it pop'') sampleState
     = Some (''make it pop'', sampleState\<lparr>isProcessing := True\<rparr>)
   \<and> currentVersion sampleState = Some verB
   \<and> composeImage sampleEnv (v_url verB) (baseLayout sampleState) (v_layers verB)
       = Inr ''data:base;data:logo;data:face;''
   \<and> env_editImage sampleEnv ''data:base;data:logo;data:face;''
        (orElse ''make it pop'' ''Clean background removal.'')
       = Some ''edited:data:base;data:logo;data:face;''
   \<and> history (handleEdit sampleEnv ''n'' 400 (Some ''make it pop'') sampleState) =
       [verA, verB,
        \<lparr>v_id = ''n'', v_url = ''edited:data:base;data:logo;data:face;'', v_layers = [],
         v_baseLayout = Some DEFAULT_LAYOUT, v_prompt = Some ''make it pop'', v_timestamp = 400\<rparr>]
   \<and> env_generateNewImage sampleEnv ''a city'' = Some ''generated:a city''
   \<and> history (handleGenerateFromScratch sampleEnv ''n'' 400 ''a city'' initialState) =
       [\<lparr>v_id = ''n'', v_url = ''generated:a city'', v_layers = [],
         v_baseLayout = Some DEFAULT_LAYOUT, v_prompt = Some ''a city'', v_timestamp = 400\<rparr>]"
proof -
  have b: "handleEdit_begin (Some ''make it pop'') sampleState
     = Some (''make it pop'', sampleState\<lparr>isProcessing := True\<rparr>)"
    by (simp add: handleEdit_begin_def sample_currentVersion sample_fields trim_def whiteSpace_def stripLeading.simps
          orElse_def)
  have c: "composeImage sampleEnv (v_url verB) (baseLayout sampleState) (v_layers verB)
       = Inr ''data:base;data:logo;data:face;''"
    by (simp add: composeImage_def sampleEnv_def sample_fields verB_def layerLogo_def layerBroken_def
          layerFace_def drawWithLayout_def blankCanvas_def imgBase_def imgLogo_def imgFace_def Let_def)
  have r: "env_editImage sampleEnv ''data:base;data:logo;data:face;''
        (orElse ''make it pop'' ''Clean background removal.'')
       = Some ''edited:data:base;data:logo;data:face;''"
    by (simp add: sampleEnv_def orElse_def)
  have g: "env_generateNewImage sampleEnv ''a city'' = Some ''generated:a city''"
    by (simp add: sampleEnv_def)
  note t1 = remote_result_version_is_flat
      [where env = sampleEnv and s = sampleState and customPrompt = "Some ''make it pop''"
         and rawPrompt = "''make it pop''" and busy = "sampleState\<lparr>isProcessing := True\<rparr>"
         and cv = verB and composed = "''data:base;data:logo;data:face;''"
         and result = "''edited:data:base;data:logo;data:face;''" and newId = "''n''" and now = 400]
  note t2 = remote_result_version_is_flat
      [where env = sampleEnv and s = initialState and templatePrompt = "''a city''"
         and result = "''generated:a city''" and newId = "''n''" and now = 400]
  have e: "history (handleEdit sampleEnv ''n'' 400 (Some ''make it pop'') sampleState) =
       [verA, verB,
        \<lparr>v_id = ''n'', v_url = ''edited:data:base;data:logo;data:face;'', v_layers = [],
         v_baseLayout = Some DEFAULT_LAYOUT, v_prompt = Some ''make it pop'', v_timestamp = 400\<rparr>]"
    using t1 b sample_currentVersion c r by (simp add: sample_fields orElse_def)
  have gen: "history (handleGenerateFromScratch sampleEnv ''n'' 400 ''a city'' initialState) =
       [\<lparr>v_id = ''n'', v_url = ''generated:a city'', v_layers = [],
         v_baseLayout = Some DEFAULT_LAYOUT, v_prompt = Some ''a city'', v_timestamp = 400\<rparr>]"
    using t2 g by (simp add: initialState_def slice0_def)
  show ?thesis using b sample_currentVersion c r e g gen by simp
qed

text \<open>
  C9. \<open>handleEdit\<close> does not look at the busy flag. On the sample session a first edit
  starts and sets the flag; a second edit started while the flag is set is accepted all
  the same (the chat handler would return early there). When the first edit ends it
  clears the flag although the second is still running, and its version "x" is appended
  after index 1; when the second ends, its version "y" is appended after the same index 1
  of its own closure, and "x" is lost. Two generations started on the initial state end
  the same way: only the second result is in the history.
\<close>

theorem second_edit_not_rejected:
  "handleEdit_begin (Some ''first'') sampleState = Some (''first'', sampleState\<lparr>isProcessing := True\<rparr>)
   \<and> handleEdit_begin (Some ''second'') (sampleState\<lparr>isProcessing := True\<rparr>)
       = Some (''second'', sampleState\<lparr>isProcessing := True\<rparr>)
   \<and> handleChatSubmit_begin ''second'' (sampleState\<lparr>isProcessing := True\<rparr>) = None
   \<and> isProcessing (handleEdit_finish sampleEnv ''x'' 400 sampleState ''first''
                      (sampleState\<lparr>isProcessing := True\<rparr>)) = False
   \<and> map v_id (history (handleEdit_finish sampleEnv ''x'' 400 sampleState ''first''
                           (sampleState\<lparr>isProcessing := True\<rparr>))) = [''a'', ''b'', ''x'']
   \<and> map v_id (history (handleEdit_finish sampleEnv ''y'' 500 (sampleState\<lparr>isProcessing := True\<rparr>) ''second''
                  (handleEdit_finish sampleEnv ''x'' 400 sampleState ''first''
                     (sampleState\<lparr>isProcessing := True\<rparr>)))) = [''a'', ''b'', ''y'']
   \<and> handleGenerateFromScratch_begin (handleGenerateFromScratch_begin initialState)
       = initialState\<lparr>isProcessing := True\<rparr>
   \<and> map v_id (history (handleGenerateFromScratch_finish sampleEnv ''y'' 500
                  (initialState\<lparr>isProcessing := True\<rparr>) ''second''
                  (handleGenerateFromScratch_finish sampleEnv ''x'' 400 initialState ''first''
                     (initialState\<lparr>isProcessing := True\<rparr>)))) = [''y'']"
  by (simp add: handleEdit_begin_def handleChatSubmit_begin_def handleEdit_finish_def
        handleGenerateFromScratch_begin_def handleGenerateFromScratch_finish_def
        sample_currentVersion currentVersion_def sampleState_def initialState_def trim_def
        whiteSpace_def stripLeading.simps orElse_def composeImage_def sampleEnv_def verA_def verB_def verC_def
        addToHistory_def slice0_def Let_def)

end
